theory Spec2Isabelle
  imports Main "HOL-Library.Monad_Syntax"
begin

section \<open>The layout tree of rendering.py\<close>

text \<open>
  The five concrete classes of \<^verbatim>\<open>rendering.py\<close> are the five constructors of one
  datatype. Every object carries the two mutable fields of \<^verbatim>\<open>Block\<close>, \<^verbatim>\<open>width\<close> and
  \<^verbatim>\<open>height\<close> (Python integers, hence \<^typ>\<open>int\<close>); an \<^verbatim>\<open>Element\<close> has its text, a
  \<^verbatim>\<open>Column\<close> and a \<^verbatim>\<open>Row\<close> their list \<^verbatim>\<open>blocks\<close>. A container holds its children by
  value: the model is the ownership tree of the objects, and a method call on a child
  that a container already holds is an update at a position of that tree
  (\<open>at_path\<close> below). A tree cannot say that one object is held by two containers,
  or twice by one; the store of objects at the end of the definitions
  (\<open>heap_get_formatted_list\<close>) can, and it is used where sharing matters. Texts are
  ASCII, so the length of a \<^typ>\<open>string\<close> is Python's \<^verbatim>\<open>len\<close>. The field \<^verbatim>\<open>text\<close> is
  called \<open>text_of\<close> here.
\<close>

datatype block =
    Element (text_of: string) (width: int) (height: int)
  | HorizontalLine (width: int) (height: int)
  | VerticalLine (width: int) (height: int)
  | Column (blocks: "block list") (width: int) (height: int)
  | Row (blocks: "block list") (width: int) (height: int)
where
  "blocks (Element t w h) = []"
| "blocks (HorizontalLine w h) = []"
| "blocks (VerticalLine w h) = []"

definition HORIZONTAL_DELIMITER :: string where
  "HORIZONTAL_DELIMITER = ''-''"

definition VERTICAL_DELIMITER :: string where
  "VERTICAL_DELIMITER = ''|''"

subsection \<open>Minimum sizes\<close>

text \<open>
  Python's \<^verbatim>\<open>max\<close> of a non-empty list keeps the first element and compares it with the
  others from left to right; \<^verbatim>\<open>sum\<close> starts at 0 and adds from left to right. The
  containers guard \<^verbatim>\<open>max\<close> and \<^verbatim>\<open>sum\<close> with \<^verbatim>\<open>if not self.blocks: return 0\<close>.
\<close>

definition py_sum :: "int list \<Rightarrow> int" where
  "py_sum xs = foldl (+) 0 xs"

fun get_min_width :: "block \<Rightarrow> int" where
  "get_min_width (Element t w h) = int (length t) + 2"
| "get_min_width (HorizontalLine w h) = 0"
| "get_min_width (VerticalLine w h) = 1"
| "get_min_width (Column bs w h) =
     (case map get_min_width bs of [] \<Rightarrow> 0 | m # ms \<Rightarrow> foldl max m ms)"
| "get_min_width (Row bs w h) =
     (case map get_min_width bs of [] \<Rightarrow> 0 | m # ms \<Rightarrow> py_sum (m # ms))"

fun get_min_height :: "block \<Rightarrow> int" where
  "get_min_height (Element t w h) = 1"
| "get_min_height (HorizontalLine w h) = 1"
| "get_min_height (VerticalLine w h) = 0"
| "get_min_height (Column bs w h) =
     (case map get_min_height bs of [] \<Rightarrow> 0 | m # ms \<Rightarrow> py_sum (m # ms))"
| "get_min_height (Row bs w h) =
     (case map get_min_height bs of [] \<Rightarrow> 0 | m # ms \<Rightarrow> foldl max m ms)"

subsection \<open>Constructors\<close>

text \<open>
  \<^verbatim>\<open>Block.__init__\<close> sets \<^verbatim>\<open>width\<close> and \<^verbatim>\<open>height\<close> to the minimum sizes of the new
  object; a new container has no children.
\<close>

definition new_Element :: "string \<Rightarrow> block" where
  "new_Element t =
     Element t (get_min_width (Element t 0 0)) (get_min_height (Element t 0 0))"

definition new_HorizontalLine :: block where
  "new_HorizontalLine =
     HorizontalLine (get_min_width (HorizontalLine 0 0)) (get_min_height (HorizontalLine 0 0))"

definition new_VerticalLine :: block where
  "new_VerticalLine =
     VerticalLine (get_min_width (VerticalLine 0 0)) (get_min_height (VerticalLine 0 0))"

definition new_Column :: block where
  "new_Column = Column [] (get_min_width (Column [] 0 0)) (get_min_height (Column [] 0 0))"

definition new_Row :: block where
  "new_Row = Row [] (get_min_width (Row [] 0 0)) (get_min_height (Row [] 0 0))"

subsection \<open>Setters and add\_block\<close>

fun set_width :: "int \<Rightarrow> block \<Rightarrow> block" where
  "set_width n (Element t w h) = Element t (max w n) h"
| "set_width n (HorizontalLine w h) = HorizontalLine (max w n) h"
| "set_width n (VerticalLine w h) = VerticalLine (max w n) h"
| "set_width n (Column bs w h) = Column bs (max w n) h"
| "set_width n (Row bs w h) = Row bs (max w n) h"

fun set_height :: "int \<Rightarrow> block \<Rightarrow> block" where
  "set_height n (Element t w h) = Element t w (max h n)"
| "set_height n (HorizontalLine w h) = HorizontalLine w (max h n)"
| "set_height n (VerticalLine w h) = VerticalLine w (max h n)"
| "set_height n (Column bs w h) = Column bs w (max h n)"
| "set_height n (Row bs w h) = Row bs w (max h n)"

text \<open>
  Only \<^verbatim>\<open>Column\<close> and \<^verbatim>\<open>Row\<close> define \<^verbatim>\<open>add_block\<close>; on a leaf the call raises
  AttributeError, which is \<open>None\<close> here.
\<close>

fun add_block :: "block \<Rightarrow> block \<Rightarrow> block option" where
  "add_block (Column bs w h) b =
     (let self = Column (bs @ [b]) w h;
          self = set_width (get_min_width self) self;
          self = set_height (get_min_height self) self
      in Some self)"
| "add_block (Row bs w h) b =
     (let self = Row (bs @ [b]) w h;
          self = set_width (get_min_width self) self;
          self = set_height (get_min_height self) self
      in Some self)"
| "add_block _ b = None"

subsection \<open>Rendering\<close>

text \<open>
  \<^verbatim>\<open>s * n\<close> on a Python string repeats \<^verbatim>\<open>s\<close> \<^verbatim>\<open>n\<close> times and is empty for \<^verbatim>\<open>n \<le> 0\<close>;
  \<^verbatim>\<open>range(n)\<close> is empty for \<^verbatim>\<open>n \<le> 0\<close>, which is \<open>nat n\<close> repetitions.

  \<^verbatim>\<open>str.center\<close> is a builtin of the language, not code of this repository. CPython
  returns the string unchanged when it is at least \<^verbatim>\<open>width\<close> long and otherwise pads
  it with \<^verbatim>\<open>left = marg // 2 + (marg & width & 1)\<close> fill characters on the left and
  \<^verbatim>\<open>marg - left\<close> on the right, where \<^verbatim>\<open>marg = width - len(s)\<close>.
\<close>

definition py_mul :: "string \<Rightarrow> int \<Rightarrow> string" where
  "py_mul s n = concat (replicate (nat n) s)"

definition center :: "string \<Rightarrow> int \<Rightarrow> string" where
  "center s w =
     (if w \<le> int (length s) then s
      else let marg = w - int (length s);
               left = marg div 2 + and marg (and w 1)
           in py_mul '' '' left @ s @ py_mul '' '' (marg - left))"

text \<open>
  The body of the inner loop of \<^verbatim>\<open>Row.get_formatted_list\<close>, for one pair of
  \<^verbatim>\<open>enumerate\<close>: a line beyond the end of \<^verbatim>\<open>result\<close> is appended, any other is
  appended to the line of \<^verbatim>\<open>result\<close> at its index.
\<close>

fun merge_line :: "string list \<Rightarrow> nat \<times> string \<Rightarrow> string list" where
  "merge_line result (i, line) =
     (if i \<ge> length result then result @ [line] else result[i := result ! i @ line])"

text \<open>
  \<^verbatim>\<open>get_formatted_list\<close> returns the lines and, since the containers call
  \<^verbatim>\<open>set_width\<close> and \<^verbatim>\<open>set_height\<close> on their children while they render, the block
  as the call leaves it. The loops over \<^verbatim>\<open>self.blocks\<close> are folds whose accumulator is
  the pair of \<^verbatim>\<open>result\<close> and the children already visited.
\<close>

function get_formatted_list :: "block \<Rightarrow> string list \<times> block" where
  "get_formatted_list (Element t w h) =
     (let indent_above = h div 2;
          indent_under = h div 2;
          indent_above = (if h mod 2 \<noteq> 1 then indent_above - 1 else indent_above)
      in (replicate (nat indent_above) (py_mul '' '' w) @ [center t w]
            @ replicate (nat indent_under) (py_mul '' '' w),
          Element t w h))"
| "get_formatted_list (HorizontalLine w h) =
     ([py_mul HORIZONTAL_DELIMITER w], HorizontalLine w h)"
| "get_formatted_list (VerticalLine w h) =
     (replicate (nat h) VERTICAL_DELIMITER, VerticalLine w h)"
| "get_formatted_list (Column bs w h) =
     (let acc = foldl (\<lambda>acc block.
                     let (ls, block') = get_formatted_list (set_width w block)
                     in (fst acc @ ls, snd acc @ [block']))
                  ([], []) bs
      in (fst acc, Column (snd acc) w h))"
| "get_formatted_list (Row bs w h) =
     (let acc = foldl (\<lambda>acc block.
                     let (ls, block') = get_formatted_list (set_height h block)
                     in (foldl merge_line (fst acc) (enumerate 0 ls), snd acc @ [block']))
                  ([], []) bs
      in (fst acc, Row (snd acc) w h))"
  by pat_completeness auto
termination
proof (relation "measure size")
  have sw: "size (set_width n b) = size b" for n b
    by (cases b) simp_all
  have sh: "size (set_height n b) = size b" for n b
    by (cases b) simp_all
  show "wf (measure (size :: block \<Rightarrow> nat))"
    by simp
  show "(set_width w x, Column bs w h) \<in> measure size" if "x \<in> set bs" for bs w h x
    using that by (simp add: sw less_Suc_eq_le size_list_estimation')
  show "(set_height h x, Row bs w h) \<in> measure size" if "x \<in> set bs" for bs w h x
    using that by (simp add: sh less_Suc_eq_le size_list_estimation')
qed

definition render :: "block \<Rightarrow> string list" where
  "render b = fst (get_formatted_list b)"

definition rendered :: "block \<Rightarrow> block" where
  "rendered b = snd (get_formatted_list b)"

text \<open>
  Two notions for stating what a row prints: \<open>hcat\<close> glues two blocks of lines side
  by side, line by line, keeping the lines that only one of them has; \<open>line_at\<close> is
  the line at an index, empty beyond the end.
\<close>

fun hcat :: "string list \<Rightarrow> string list \<Rightarrow> string list" where
  "hcat [] ls = ls"
| "hcat rs [] = rs"
| "hcat (r # rs) (l # ls) = (r @ l) # hcat rs ls"

definition line_at :: "string list \<Rightarrow> nat \<Rightarrow> string" where
  "line_at ls i = (if i < length ls then ls ! i else [])"

subsection \<open>Calls on blocks inside a tree\<close>

text \<open>
  A caller that keeps a reference to a block it has added to a container can still call
  its methods. \<open>at_path p f\<close> is the call \<open>f\<close> on the block reached from the root
  by the child indices \<open>p\<close>; it is \<open>None\<close> when the path leaves the tree or the call
  raises.
\<close>

primrec at_path :: "nat list \<Rightarrow> (block \<Rightarrow> block option) \<Rightarrow> block \<Rightarrow> block option" where
  "at_path [] f b = f b"
| "at_path (i # p) f b =
     (case b of
        Column bs w h \<Rightarrow>
          if i < length bs
          then map_option (\<lambda>c. Column (bs[i := c]) w h) (at_path p f (bs ! i))
          else None
      | Row bs w h \<Rightarrow>
          if i < length bs
          then map_option (\<lambda>c. Row (bs[i := c]) w h) (at_path p f (bs ! i))
          else None
      | _ \<Rightarrow> None)"

text \<open>
  The method calls that change a block, and what each does to the block it is called on.
\<close>

datatype call = Set_width int | Set_height int | Get_formatted_list | Add_block block

fun perform :: "call \<Rightarrow> block \<Rightarrow> block option" where
  "perform (Set_width n) b = Some (set_width n b)"
| "perform (Set_height n) b = Some (set_height n b)"
| "perform Get_formatted_list b = Some (rendered b)"
| "perform (Add_block c) b = add_block b c"

text \<open>
  The size invariant of one block, and of every block of a tree.
\<close>

definition size_ok :: "block \<Rightarrow> bool" where
  "size_ok b \<longleftrightarrow> get_min_width b \<le> width b \<and> get_min_height b \<le> height b"

fun all_size_ok :: "block \<Rightarrow> bool" where
  "all_size_ok (Column bs w h) \<longleftrightarrow> size_ok (Column bs w h) \<and> (\<forall>c \<in> set bs. all_size_ok c)"
| "all_size_ok (Row bs w h) \<longleftrightarrow> size_ok (Row bs w h) \<and> (\<forall>c \<in> set bs. all_size_ok c)"
| "all_size_ok b \<longleftrightarrow> size_ok b"

text \<open>
  The trees a caller obtains by building bottom-up: new blocks; \<^verbatim>\<open>set_width\<close>,
  \<^verbatim>\<open>set_height\<close> and \<^verbatim>\<open>get_formatted_list\<close> called on any block of a tree;
  \<^verbatim>\<open>add_block\<close> called on the root of a tree with another such tree as the child.
\<close>

inductive built :: "block \<Rightarrow> bool" where
  elem: "built (new_Element t)"
| hline: "built new_HorizontalLine"
| vline: "built new_VerticalLine"
| col: "built new_Column"
| row: "built new_Row"
| set_w: "built b \<Longrightarrow> at_path p (perform (Set_width n)) b = Some b' \<Longrightarrow> built b'"
| set_h: "built b \<Longrightarrow> at_path p (perform (Set_height n)) b = Some b' \<Longrightarrow> built b'"
| rend: "built b \<Longrightarrow> at_path p (perform Get_formatted_list) b = Some b' \<Longrightarrow> built b'"
| add: "built b \<Longrightarrow> built c \<Longrightarrow> add_block b c = Some b' \<Longrightarrow> built b'"


subsection \<open>The table of a transportation problem\<close>

text \<open>
  \<^verbatim>\<open>TransportationProblemTableFormatter\<close> reads three numpy arrays and prints their
  entries with \<^verbatim>\<open>str\<close>. An array is a list of \<^typ>\<open>int\<close> here, which stands for an
  array of float64 under two conditions that the example of the module docstring meets:
  every entry is a whole number, and the entries and the partial sums of the supplies
  are below \<^verbatim>\<open>2 ** 53\<close> in absolute value. A float64 holds such a number exactly, adds
  it without rounding and prints it as its decimal digits followed by \<^verbatim>\<open>.0\<close>
  (\<open>str_float\<close>). Outside these conditions float64 rounds sums and prints large
  values with an exponent, which the model does not follow. Python's \<^verbatim>\<open>sum\<close> starts
  from the integer 0, so the sum of an empty array is that integer and prints as
  \<^verbatim>\<open>0\<close> (\<open>str_sum\<close>). \<^verbatim>\<open>f"A{i + 1}"\<close> prints a positive Python integer,
  \<open>str_nat\<close>. An index out of range raises IndexError (\<open>getitem\<close>), and the bodies
  of the \<^verbatim>\<open>for\<close> loops run in the option monad (\<open>for_each\<close>), since \<^verbatim>\<open>add_block\<close>
  can raise.
\<close>

fun str_nat :: "nat \<Rightarrow> string" where
  "str_nat n =
     (if n < 10 then [''0123456789'' ! n]
      else str_nat (n div 10) @ [''0123456789'' ! (n mod 10)])"

declare str_nat.simps [simp del]

definition str_float :: "int \<Rightarrow> string" where
  "str_float x = (if x < 0 then ''-'' else '''') @ str_nat (nat \<bar>x\<bar>) @ ''.0''"

definition str_sum :: "int list \<Rightarrow> string" where
  "str_sum xs = (if xs = [] then ''0'' else str_float (py_sum xs))"

definition getitem :: "'a list \<Rightarrow> nat \<Rightarrow> 'a option" where
  "getitem xs i = (if i < length xs then Some (xs ! i) else None)"

fun for_each :: "'a list \<Rightarrow> 's \<Rightarrow> ('s \<Rightarrow> 'a \<Rightarrow> 's option) \<Rightarrow> 's option" where
  "for_each [] s body = Some s"
| "for_each (x # xs) s body = body s x \<bind> (\<lambda>s'. for_each xs s' body)"

definition create_source_column :: "int list \<Rightarrow> block option" where
  "create_source_column s_array = do {
     let source_column = new_Column;
     let source_title = new_Element ''Source'';
     let source_title = set_height 3 source_title;
     source_column \<leftarrow> add_block source_column source_title;
     source_column \<leftarrow> add_block source_column new_HorizontalLine;
     source_column \<leftarrow> for_each [0..<length s_array] source_column
       (\<lambda>source_column i. add_block source_column (new_Element (''A'' @ str_nat (i + 1))));
     source_column \<leftarrow> add_block source_column new_HorizontalLine;
     source_column \<leftarrow> add_block source_column (new_Element ''Demand'');
     Some source_column
   }"

definition create_destination_table :: "int list \<Rightarrow> int list list \<Rightarrow> int list \<Rightarrow> block option" where
  "create_destination_table s_array c_array d_array = do {
     let destination_columns = new_Row;
     destination_columns \<leftarrow> for_each [0..<length d_array] destination_columns
       (\<lambda>destination_columns i. do {
          let destination_column = new_Column;
          destination_column \<leftarrow> add_block destination_column (new_Element (''D'' @ str_nat (i + 1)));
          destination_column \<leftarrow> add_block destination_column new_HorizontalLine;
          destination_column \<leftarrow> for_each [0..<length s_array] destination_column
            (\<lambda>destination_column j. do {
               row \<leftarrow> getitem c_array j;
               c \<leftarrow> getitem row i;
               add_block destination_column (new_Element (str_float c))
             });
          destination_column \<leftarrow> add_block destination_column new_HorizontalLine;
          d \<leftarrow> getitem d_array i;
          destination_column \<leftarrow> add_block destination_column (new_Element (str_float d));
          add_block destination_columns destination_column
        });
     let destination_table = new_Column;
     destination_table \<leftarrow> add_block destination_table (new_Element ''Destination'');
     destination_table \<leftarrow> add_block destination_table new_HorizontalLine;
     destination_table \<leftarrow> add_block destination_table destination_columns;
     Some destination_table
   }"

definition create_supply_column :: "int list \<Rightarrow> block option" where
  "create_supply_column s_array = do {
     let supply_column = new_Column;
     let supply_title = new_Element ''Supply'';
     let supply_title = set_height 3 supply_title;
     supply_column \<leftarrow> add_block supply_column supply_title;
     supply_column \<leftarrow> add_block supply_column new_HorizontalLine;
     supply_column \<leftarrow> for_each [0..<length s_array] supply_column
       (\<lambda>supply_column i. do {
          s \<leftarrow> getitem s_array i;
          add_block supply_column (new_Element (str_float s))
        });
     supply_column \<leftarrow> add_block supply_column new_HorizontalLine;
     supply_column \<leftarrow> add_block supply_column (new_Element (str_sum s_array));
     Some supply_column
   }"

definition create_table :: "int list \<Rightarrow> int list list \<Rightarrow> int list \<Rightarrow> block option" where
  "create_table s_array c_array d_array = do {
     source_column \<leftarrow> create_source_column s_array;
     destination_table \<leftarrow> create_destination_table s_array c_array d_array;
     supply_column \<leftarrow> create_supply_column s_array;
     let table = new_Row;
     table \<leftarrow> add_block table new_VerticalLine;
     table \<leftarrow> add_block table source_column;
     table \<leftarrow> add_block table new_VerticalLine;
     table \<leftarrow> add_block table destination_table;
     table \<leftarrow> add_block table new_VerticalLine;
     table \<leftarrow> add_block table supply_column;
     table \<leftarrow> add_block table new_VerticalLine;
     let table_with_horizontal_lines = new_Column;
     table_with_horizontal_lines \<leftarrow> add_block table_with_horizontal_lines new_HorizontalLine;
     table_with_horizontal_lines \<leftarrow> add_block table_with_horizontal_lines table;
     table_with_horizontal_lines \<leftarrow> add_block table_with_horizontal_lines new_HorizontalLine;
     Some table_with_horizontal_lines
   }"

definition format :: "int list \<Rightarrow> int list list \<Rightarrow> int list \<Rightarrow> block option" where
  "format s_array c_array d_array = create_table s_array c_array d_array"

definition example_table :: "block option" where
  "example_table =
     format [140, 180, 160]
       [[2, 3, 4, 2, 4], [8, 4, 1, 4, 1], [9, 7, 3, 7, 2]]
       [60, 70, 120, 130, 100]"

subsection \<open>Objects in a store\<close>

text \<open>
  Python holds objects by reference. In the store an object has an address, its index,
  and a container lists the addresses of its children, so one object can be a child of
  two containers. \<^verbatim>\<open>set_width\<close> and \<^verbatim>\<open>set_height\<close> update the object at an address.
  \<^verbatim>\<open>get_formatted_list\<close> is the code of the tree model, with the calls on the
  children made through their addresses; the leaves print as in the tree model. The
  first argument bounds the depth of the calls: a container that holds itself makes
  Python run into its recursion limit, which is \<open>None\<close>, as is an address outside the
  store.
\<close>

datatype hobj =
    HElement string (hwidth: int) (hheight: int)
  | HHorizontalLine (hwidth: int) (hheight: int)
  | HVerticalLine (hwidth: int) (hheight: int)
  | HColumn "nat list" (hwidth: int) (hheight: int)
  | HRow "nat list" (hwidth: int) (hheight: int)

type_synonym store = "hobj list"

definition deref :: "store \<Rightarrow> nat \<Rightarrow> hobj option" where
  "deref s a = (if a < length s then Some (s ! a) else None)"

fun hobj_set_width :: "int \<Rightarrow> hobj \<Rightarrow> hobj" where
  "hobj_set_width n (HElement t w h) = HElement t (max w n) h"
| "hobj_set_width n (HHorizontalLine w h) = HHorizontalLine (max w n) h"
| "hobj_set_width n (HVerticalLine w h) = HVerticalLine (max w n) h"
| "hobj_set_width n (HColumn bs w h) = HColumn bs (max w n) h"
| "hobj_set_width n (HRow bs w h) = HRow bs (max w n) h"

fun hobj_set_height :: "int \<Rightarrow> hobj \<Rightarrow> hobj" where
  "hobj_set_height n (HElement t w h) = HElement t w (max h n)"
| "hobj_set_height n (HHorizontalLine w h) = HHorizontalLine w (max h n)"
| "hobj_set_height n (HVerticalLine w h) = HVerticalLine w (max h n)"
| "hobj_set_height n (HColumn bs w h) = HColumn bs w (max h n)"
| "hobj_set_height n (HRow bs w h) = HRow bs w (max h n)"

definition heap_set_width :: "int \<Rightarrow> nat \<Rightarrow> store \<Rightarrow> store option" where
  "heap_set_width n a s = map_option (\<lambda>ob. s[a := hobj_set_width n ob]) (deref s a)"

definition heap_set_height :: "int \<Rightarrow> nat \<Rightarrow> store \<Rightarrow> store option" where
  "heap_set_height n a s = map_option (\<lambda>ob. s[a := hobj_set_height n ob]) (deref s a)"

fun heap_get_formatted_list :: "nat \<Rightarrow> nat \<Rightarrow> store \<Rightarrow> (string list \<times> store) option" where
  "heap_get_formatted_list 0 a s = None"
| "heap_get_formatted_list (Suc fuel) a s =
     (case deref s a of
        None \<Rightarrow> None
      | Some (HElement t w h) \<Rightarrow> Some (render (Element t w h), s)
      | Some (HHorizontalLine w h) \<Rightarrow> Some (render (HorizontalLine w h), s)
      | Some (HVerticalLine w h) \<Rightarrow> Some (render (VerticalLine w h), s)
      | Some (HColumn bs w h) \<Rightarrow>
          for_each bs ([], s)
            (\<lambda>acc block. do {
               self \<leftarrow> deref (snd acc) a;
               s1 \<leftarrow> heap_set_width (hwidth self) block (snd acc);
               r \<leftarrow> heap_get_formatted_list fuel block s1;
               Some (fst acc @ fst r, snd r)
             })
      | Some (HRow bs w h) \<Rightarrow>
          for_each bs ([], s)
            (\<lambda>acc block. do {
               self \<leftarrow> deref (snd acc) a;
               s1 \<leftarrow> heap_set_height (hheight self) block (snd acc);
               r \<leftarrow> heap_get_formatted_list fuel block s1;
               Some (foldl merge_line (fst acc) (enumerate 0 (fst r)), snd r)
             }))"

section \<open>Properties of the sizes\<close>

lemma foldl_max_Max: "foldl max (m::int) ms = Max (set (m # ms))"
proof (induction ms arbitrary: m)
  case Nil
  show ?case by simp
next
  case (Cons a ms)
  have "foldl max m (a # ms) = Max (set (max m a # ms))"
    using Cons.IH [of "max m a"] by simp
  also have "\<dots> = Max (insert m (insert a (set ms)))"
    by (cases "ms = []") (simp_all add: max.assoc)
  finally show ?case by simp
qed

lemma py_sum_sum_list: "py_sum xs = sum_list xs"
proof -
  have "foldl (+) a xs = a + sum_list xs" for a :: int
    by (induction xs arbitrary: a) simp_all
  then show ?thesis by (simp add: py_sum_def)
qed

text \<open>
  C4. The minimum width of a Column is the maximum of its children's minimum widths, 0
  when it has no children, and its minimum height is the sum of their minimum heights; a
  Row is the dual: its minimum width is the sum and its minimum height the maximum, 0
  when it has no children.
\<close>

theorem container_min_sizes:
  "get_min_width (Column [] w h) = 0
   \<and> get_min_width (Column (b # bs) w h) = Max (get_min_width ` set (b # bs))
   \<and> get_min_height (Column cs w h) = sum_list (map get_min_height cs)
   \<and> get_min_width (Row cs w h) = sum_list (map get_min_width cs)
   \<and> get_min_height (Row [] w h) = 0
   \<and> get_min_height (Row (b # bs) w h) = Max (get_min_height ` set (b # bs))"
proof -
  have "get_min_width (Column (b # bs) w h) = Max (get_min_width ` set (b # bs))"
    by (simp add: foldl_max_Max)
  moreover have "get_min_height (Column cs w h) = sum_list (map get_min_height cs)"
    by (cases cs) (simp_all add: py_sum_sum_list)
  moreover have "get_min_width (Row cs w h) = sum_list (map get_min_width cs)"
    by (cases cs) (simp_all add: py_sum_sum_list)
  moreover have "get_min_height (Row (b # bs) w h) = Max (get_min_height ` set (b # bs))"
    by (simp add: foldl_max_Max)
  ultimately show ?thesis by simp
qed

text \<open>
  C5. For every block and every integer n, set\_width n sets the width to the maximum of
  the current width and n and set\_height n does the same for the height; neither
  touches the other field, and a call with a value at most the current size leaves the
  block as it is.
\<close>

theorem set_size_max:
  "width (set_width n b) = max (width b) n \<and> height (set_width n b) = height b
   \<and> height (set_height n b) = max (height b) n \<and> width (set_height n b) = width b
   \<and> (n \<le> width b \<longrightarrow> set_width n b = b)
   \<and> (n \<le> height b \<longrightarrow> set_height n b = b)"
  by (cases b) (simp_all add: max_def)

theorem set_size_max_witness:
  "(3::int) \<le> width (new_Element ''Source'')
   \<and> set_width 3 (new_Element ''Source'') = new_Element ''Source''
   \<and> (1::int) \<le> height (new_Element ''Source'')
   \<and> set_height 1 (new_Element ''Source'') = new_Element ''Source''
   \<and> height (set_height 3 (new_Element ''Source'')) = 3"
  using set_size_max [of 3 "new_Element ''Source''"] set_size_max [of 1 "new_Element ''Source''"]
  by (simp add: new_Element_def)

section \<open>Rendering\<close>

subsection \<open>The loops of the containers\<close>

lemma column_loop:
  "foldl (\<lambda>acc block. case g block of (ls, block') \<Rightarrow> (fst acc @ ls, snd acc @ [block']))
         (r, d) bs
   = (r @ concat (map (\<lambda>c. fst (g c)) bs), d @ map (\<lambda>c. snd (g c)) bs)"
  by (induction bs arbitrary: r d) (simp_all add: split_beta)

lemma get_formatted_list_Column:
  "get_formatted_list (Column bs w h) =
     (concat (map (\<lambda>c. render (set_width w c)) bs),
      Column (map (\<lambda>c. rendered (set_width w c)) bs) w h)"
  by (simp add: column_loop Let_def render_def rendered_def)

lemma hcat_Nil2 [simp]: "hcat rs [] = rs"
  by (cases rs) simp_all

lemma merge_loop:
  "k \<le> length result \<Longrightarrow>
   foldl merge_line result (enumerate k ls) = take k result @ hcat (drop k result) ls"
proof (induction ls arbitrary: k result)
  case Nil
  then show ?case by simp
next
  case (Cons l ls)
  show ?case
  proof (cases "k = length result")
    case True
    then show ?thesis
      using Cons.IH [of "Suc k" "result @ [l]"] by simp
  next
    case False
    with Cons.prems have lt: "k < length result" by simp
    have d: "drop k result = result ! k # drop (Suc k) result"
      using lt by (simp add: Cons_nth_drop_Suc)
    have "foldl merge_line result (enumerate k (l # ls))
          = foldl merge_line (result[k := result ! k @ l]) (enumerate (Suc k) ls)"
      using lt by simp
    also have "\<dots> = take (Suc k) (result[k := result ! k @ l])
                     @ hcat (drop (Suc k) (result[k := result ! k @ l])) ls"
      using lt by (intro Cons.IH) simp
    also have "\<dots> = take k result @ (result ! k @ l) # hcat (drop (Suc k) result) ls"
      using lt by (simp add: take_Suc_conv_app_nth)
    finally show ?thesis by (simp add: d)
  qed
qed

lemma merge_lines_hcat: "foldl merge_line result (enumerate 0 ls) = hcat result ls"
  using merge_loop [of 0 result ls] by simp

lemma row_loop:
  "foldl (\<lambda>acc block. case g block of (ls, block') \<Rightarrow>
                          (foldl merge_line (fst acc) (enumerate 0 ls), snd acc @ [block']))
         (r, d) bs
   = (foldl hcat r (map (\<lambda>c. fst (g c)) bs), d @ map (\<lambda>c. snd (g c)) bs)"
  by (induction bs arbitrary: r d) (simp_all add: split_beta merge_lines_hcat)

lemma get_formatted_list_Row:
  "get_formatted_list (Row bs w h) =
     (foldl hcat [] (map (\<lambda>c. render (set_height h c)) bs),
      Row (map (\<lambda>c. rendered (set_height h c)) bs) w h)"
  by (simp add: row_loop Let_def render_def rendered_def)

declare get_formatted_list.simps(4,5) [simp del]

lemma length_hcat: "length (hcat rs ls) = max (length rs) (length ls)"
  by (induction rs ls rule: hcat.induct) simp_all

lemma line_at_Cons:
  "line_at (x # xs) 0 = x" "line_at (x # xs) (Suc j) = line_at xs j" "line_at [] i = []"
  by (simp_all add: line_at_def)

lemma line_at_hcat: "line_at (hcat rs ls) i = line_at rs i @ line_at ls i"
proof (induction rs ls arbitrary: i rule: hcat.induct)
  case (1 ls)
  show ?case by (simp add: line_at_def)
next
  case (2 r rs)
  show ?case by (simp add: line_at_def)
next
  case (3 r rs l ls)
  show ?case
  proof (cases i)
    case 0
    then show ?thesis by (simp add: line_at_def)
  next
    case (Suc j)
    then show ?thesis using 3 [of j] by (simp add: line_at_Cons)
  qed
qed

lemma length_foldl_hcat:
  "length (foldl hcat r lss) = Max (set (length r # map length lss))"
proof (induction lss arbitrary: r)
  case Nil
  show ?case by simp
next
  case (Cons ls lss)
  have "length (foldl hcat r (ls # lss)) = Max (set (max (length r) (length ls) # map length lss))"
    using Cons.IH [of "hcat r ls"] by (simp add: length_hcat)
  also have "\<dots> = Max (set (length r # map length (ls # lss)))"
    by (cases "lss = []") (simp_all add: max.assoc)
  finally show ?case .
qed

lemma line_at_foldl_hcat:
  "line_at (foldl hcat r lss) i = line_at r i @ concat (map (\<lambda>ls. line_at ls i) lss)"
  by (induction lss arbitrary: r) (simp_all add: line_at_hcat)

subsection \<open>What the containers print\<close>

lemma render_Row_nth:
  assumes "i < length (render (Row bs w h))"
  shows "render (Row bs w h) ! i = concat (map (\<lambda>c. line_at (render (set_height h c)) i) bs)"
proof -
  have "render (Row bs w h) ! i = line_at (render (Row bs w h)) i"
    using assms by (simp add: line_at_def)
  also have "\<dots> = concat (map (\<lambda>c. line_at (render (set_height h c)) i) bs)"
    by (simp add: render_def [of "Row bs w h"] get_formatted_list_Row line_at_foldl_hcat
        line_at_Cons comp_def)
  finally show ?thesis .
qed

lemma length_render_Row:
  "bs \<noteq> [] \<Longrightarrow>
   length (render (Row bs w h)) = Max ((\<lambda>c. length (render (set_height h c))) ` set bs)"
  by (simp add: render_def [of "Row bs w h"] get_formatted_list_Row length_foldl_hcat image_image)

text \<open>
  C3. Rendering a Column calls set\_width with the column's width on each child, in
  insertion order, and its output is the children's rendered lines one after the other,
  top to bottom; the children are left as these calls leave them. Rendering a Row calls
  set\_height with the row's height on each child, in insertion order, and at every
  index at which each child has a line, the output line is the concatenation, in child
  order, of the children's lines at that index.
\<close>

theorem container_render:
  "render (Column bs w h) = concat (map (\<lambda>c. render (set_width w c)) bs)
   \<and> rendered (Column bs w h) = Column (map (\<lambda>c. rendered (set_width w c)) bs) w h
   \<and> rendered (Row bs w h) = Row (map (\<lambda>c. rendered (set_height h c)) bs) w h
   \<and> (bs \<noteq> [] \<and> (\<forall>c \<in> set bs. i < length (render (set_height h c))) \<longrightarrow>
        i < length (render (Row bs w h))
        \<and> render (Row bs w h) ! i = concat (map (\<lambda>c. render (set_height h c) ! i) bs))"
proof -
  have col: "render (Column bs w h) = concat (map (\<lambda>c. render (set_width w c)) bs)"
    "rendered (Column bs w h) = Column (map (\<lambda>c. rendered (set_width w c)) bs) w h"
    by (simp_all add: render_def [of "Column bs w h"] rendered_def [of "Column bs w h"]
        get_formatted_list_Column)
  have row: "rendered (Row bs w h) = Row (map (\<lambda>c. rendered (set_height h c)) bs) w h"
    by (simp add: rendered_def [of "Row bs w h"] get_formatted_list_Row)
  have lines: "i < length (render (Row bs w h))
      \<and> render (Row bs w h) ! i = concat (map (\<lambda>c. render (set_height h c) ! i) bs)"
    if ne: "bs \<noteq> []" and all: "\<forall>c \<in> set bs. i < length (render (set_height h c))"
  proof -
    from ne obtain c where c: "c \<in> set bs" by (cases bs) auto
    have "length (render (set_height h c)) \<le> length (render (Row bs w h))"
      using c ne by (simp add: length_render_Row)
    with all c have lt: "i < length (render (Row bs w h))" by fastforce
    have "map (\<lambda>c. line_at (render (set_height h c)) i) bs
          = map (\<lambda>c. render (set_height h c) ! i) bs"
      using all by (simp add: line_at_def)
    with render_Row_nth [OF lt] lt show ?thesis by simp
  qed
  from col row lines show ?thesis by blast
qed

theorem container_render_witness:
  "[new_Element ''X'', new_VerticalLine] \<noteq> []
   \<and> 0 < length (render (set_height 1 (new_Element ''X'')))
   \<and> 0 < length (render (set_height 1 new_VerticalLine))
   \<and> render (Row [new_Element ''X'', new_VerticalLine] 4 1) ! 0 = '' X |''
   \<and> concat (map (\<lambda>c. render (set_height 1 c) ! 0) [new_Element ''X'', new_VerticalLine])
       = '' X |''
   \<and> render (Column [new_Element ''X'', new_HorizontalLine] 3 2) = ['' X '', ''---'']"
proof -
  have hyp: "0 < length (render (set_height 1 (new_Element ''X'')))"
    "0 < length (render (set_height 1 new_VerticalLine))"
    by code_simp+
  have val: "concat (map (\<lambda>c. render (set_height 1 c) ! 0) [new_Element ''X'', new_VerticalLine])
       = '' X |''"
    by code_simp
  have col: "concat (map (\<lambda>c. render (set_width 3 c)) [new_Element ''X'', new_HorizontalLine])
       = ['' X '', ''---'']"
    by code_simp
  show ?thesis
    using container_render [of "[new_Element ''X'', new_VerticalLine]" 4 1 0]
      container_render [of "[new_Element ''X'', new_HorizontalLine]" 3 2 0] hyp val col
    by simp
qed


lemma concat_line_at_blocks:
  "concat (map (\<lambda>c. line_at (R c) i) bs)
   = concat (map (\<lambda>c. R c ! i) (filter (\<lambda>c. i < length (R c)) bs))"
  by (induction bs) (simp_all add: line_at_def)

text \<open>
  C10. Whatever numbers of lines the children of a Row render after the row's height
  was passed to them, the row's output has as many lines as the longest child output,
  and its line at index i is the concatenation, in child order, of line i of exactly
  those children that have an i-th line.
\<close>

theorem row_render_unequal:
  "bs \<noteq> [] \<Longrightarrow>
   length (render (Row bs w h)) = Max ((\<lambda>c. length (render (set_height h c))) ` set bs)
   \<and> (\<forall>i < length (render (Row bs w h)).
         render (Row bs w h) ! i
         = concat (map (\<lambda>c. render (set_height h c) ! i)
                     (filter (\<lambda>c. i < length (render (set_height h c))) bs)))"
  using length_render_Row [of bs w h] render_Row_nth [of _ bs w h]
  by (simp add: concat_line_at_blocks)

theorem row_render_unequal_witness:
  "[set_height 3 (new_Element ''X''), new_VerticalLine] \<noteq> []
   \<and> map (\<lambda>c. length (render (set_height 1 c))) [set_height 3 (new_Element ''X''), new_VerticalLine]
       = [3, 1]
   \<and> length (render (Row [set_height 3 (new_Element ''X''), new_VerticalLine] 4 1)) = 3
   \<and> render (Row [set_height 3 (new_Element ''X''), new_VerticalLine] 4 1)
       = [''   |'', '' X '', ''   '']"
proof -
  have ne: "[set_height 3 (new_Element ''X''), new_VerticalLine] \<noteq> []"
    by simp
  have lens: "map (\<lambda>c. length (render (set_height 1 c)))
                [set_height 3 (new_Element ''X''), new_VerticalLine] = [3, 1]"
    by code_simp
  have val: "render (Row [set_height 3 (new_Element ''X''), new_VerticalLine] 4 1)
       = [''   |'', '' X '', ''   '']"
    by code_simp
  show ?thesis
    using row_render_unequal [OF ne, of 4 1] lens val by simp
qed


subsection \<open>What a cell prints\<close>

lemma py_mul_space: "py_mul '' '' n = replicate (nat n) CHR '' ''"
  by (induction "nat n" arbitrary: n) (simp_all add: py_mul_def)

lemma render_Element:
  "render (Element t w h) =
     replicate (nat (if h mod 2 \<noteq> 1 then h div 2 - 1 else h div 2)) (py_mul '' '' w)
       @ [center t w] @ replicate (nat (h div 2)) (py_mul '' '' w)"
  by (simp add: render_def Let_def)

text \<open>
  C6. A Cell of height h, at least 1, renders its text line after above blank rows and
  before under blank rows, where above = under = h div 2 when h is odd, and
  above = h div 2 - 1, under = h div 2 when h is even; it renders h lines in all. A Cell
  of height 4 has its text at line index 1, one blank line above and two below.
\<close>

theorem cell_vertical_placement:
  "1 \<le> h \<Longrightarrow>
   (let above = (if odd h then h div 2 else h div 2 - 1);
        under = h div 2;
        blank = replicate (nat w) CHR '' ''
    in 0 \<le> above
       \<and> render (Element t w h)
           = replicate (nat above) blank @ [center t w] @ replicate (nat under) blank
       \<and> int (length (render (Element t w h))) = h
       \<and> render (Element t w h) ! nat above = center t w)"
proof -
  assume h: "1 \<le> h"
  define above where "above = (if odd h then h div 2 else h div 2 - 1)"
  have a0: "0 \<le> above"
    using h unfolding above_def by presburger
  have ab: "(if h mod 2 \<noteq> 1 then h div 2 - 1 else h div 2) = above"
    unfolding above_def by presburger
  have r: "render (Element t w h)
      = replicate (nat above) (replicate (nat w) CHR '' '') @ [center t w]
          @ replicate (nat (h div 2)) (replicate (nat w) CHR '' '')"
    by (simp only: render_Element ab py_mul_space)
  have len: "int (length (render (Element t w h))) = h"
    using h a0 unfolding r above_def by (simp split: if_splits) presburger+
  have nth: "render (Element t w h) ! nat above = center t w"
    unfolding r by (simp add: nth_append)
  show ?thesis
    using a0 r len nth unfolding above_def Let_def by simp
qed

theorem cell_vertical_placement_witness:
  "(1::int) \<le> 4
   \<and> render (Element ''X'' 3 4) = [''   '', '' X '', ''   '', ''   '']
   \<and> render (Element ''X'' 3 4) ! 1 = '' X ''"
proof -
  have c: "center ''X'' 3 = '' X ''"
    by code_simp
  show ?thesis
    using cell_vertical_placement [of 4 3 "''X''"] c
    by (simp add: Let_def eval_nat_numeral)
qed

lemma and_and_one: "and (m::int) (and w 1) = (if odd m \<and> odd w then 1 else 0)"
proof -
  have "and w 1 = w mod 2" by (simp add: and_one_eq)
  then show ?thesis
    by (cases "even w") (auto simp: and_one_eq odd_iff_mod_2_eq_one even_iff_mod_2_eq_zero)
qed

lemma center_pads:
  assumes "int (length t) \<le> w"
  shows "center t w =
     replicate (nat ((w - int (length t)) div 2
                     + (if odd (w - int (length t)) \<and> odd w then 1 else 0))) CHR '' ''
     @ t
     @ replicate (nat ((w - int (length t))
                     - ((w - int (length t)) div 2
                        + (if odd (w - int (length t)) \<and> odd w then 1 else 0)))) CHR '' ''"
proof (cases "w = int (length t)")
  case True
  then show ?thesis by (simp add: center_def)
next
  case False
  with assms have "\<not> w \<le> int (length t)" by simp
  then show ?thesis
    by (simp only: center_def Let_def and_and_one py_mul_space if_False)
qed

text \<open>
  C7 (as the code has it). For every Cell at least as wide as its text, the text line
  is the text between left and right blanks that fill the width, where
  left = marg div 2, plus one when marg and the width are both odd, for
  marg = width - len(text). With an even marg the two sides are equal; with an odd marg
  the extra blank is on the right when the width is even and on the left when the width
  is odd.
\<close>

theorem cell_horizontal_centering:
  "int (length t) \<le> w \<Longrightarrow> 1 \<le> h \<Longrightarrow>
   (let marg = w - int (length t);
        left = marg div 2 + (if odd marg \<and> odd w then 1 else 0);
        right = marg - left
    in render (Element t w h) ! nat ((h - 1) div 2)
         = replicate (nat left) CHR '' '' @ t @ replicate (nat right) CHR '' ''
       \<and> 0 \<le> left \<and> 0 \<le> right
       \<and> left + right + int (length t) = w
       \<and> (even marg \<longrightarrow> left = right)
       \<and> (odd marg \<and> even w \<longrightarrow> right = left + 1)
       \<and> (odd marg \<and> odd w \<longrightarrow> left = right + 1))"
proof -
  assume tw: "int (length t) \<le> w" and h: "1 \<le> h"
  define marg where "marg = w - int (length t)"
  define left where "left = marg div 2 + (if odd marg \<and> odd w then 1 else 0)"
  have m0: "0 \<le> marg" using tw by (simp add: marg_def)
  have ab: "(if h mod 2 \<noteq> 1 then h div 2 - 1 else h div 2) = (h - 1) div 2"
    by presburger
  have a0: "0 \<le> (h - 1) div 2" using h by simp
  have "render (Element t w h) ! nat ((h - 1) div 2) = center t w"
    by (simp only: render_Element ab) (simp add: nth_append)
  also have "center t w
      = replicate (nat left) CHR '' '' @ t @ replicate (nat (marg - left)) CHR '' ''"
    using center_pads [OF tw] by (simp only: marg_def left_def)
  finally have line: "render (Element t w h) ! nat ((h - 1) div 2)
      = replicate (nat left) CHR '' '' @ t @ replicate (nat (marg - left)) CHR '' ''" .
  have l0: "0 \<le> left" using m0 by (simp add: left_def)
  have r0: "0 \<le> marg - left" using m0 unfolding left_def by presburger
  have e: "even marg \<longrightarrow> left = marg - left" unfolding left_def by presburger
  have o1: "odd marg \<and> even w \<longrightarrow> marg - left = left + 1" unfolding left_def by presburger
  have o2: "odd marg \<and> odd w \<longrightarrow> left = marg - left + 1" unfolding left_def by presburger
  have s: "left + (marg - left) + int (length t) = w" by (simp add: marg_def)
  show ?thesis
    using line l0 r0 e o1 o2 s unfolding Let_def marg_def [symmetric] left_def [symmetric]
    by blast
qed

theorem cell_horizontal_centering_witness:
  "int (length ''ab'') \<le> 5 \<and> (1::int) \<le> 1
   \<and> odd (5 - int (length ''ab'')) \<and> odd (5::int)
   \<and> render (Element ''ab'' 5 1) ! 0 = ''  ab ''
   \<and> int (length ''X'') \<le> 6 \<and> odd (6 - int (length ''X'')) \<and> even (6::int)
   \<and> render (Element ''X'' 6 1) ! 0 = ''  X   ''"
  using cell_horizontal_centering [of "''ab''" 5 1] cell_horizontal_centering [of "''X''" 6 1]
  by (simp add: Let_def eval_nat_numeral)

text \<open>
  The extra blank is not always on the right: a Cell with the text ab, widened to 5,
  prints two blanks on the left and one on the right.
\<close>

theorem cell_odd_padding_counterexample:
  "set_width 5 (new_Element ''ab'') = Element ''ab'' 5 1
   \<and> odd (width (Element ''ab'' 5 1) - int (length ''ab''))
   \<and> render (Element ''ab'' 5 1) = [''  ab '']
   \<and> render (Element ''ab'' 5 1) \<noteq> ['' ab  '']"
  by (simp add: new_Element_def render_Element center_def py_mul_def eval_nat_numeral)

section \<open>Rendering twice\<close>

lemma width_set [simp]:
  "width (set_width n b) = max (width b) n" "width (set_height n b) = width b"
  "height (set_height n b) = max (height b) n" "height (set_width n b) = height b"
  by (cases b; simp)+

lemma set_width_id: "n \<le> width b \<Longrightarrow> set_width n b = b"
  by (cases b) (simp_all add: max_def)

lemma set_height_id: "n \<le> height b \<Longrightarrow> set_height n b = b"
  by (cases b) (simp_all add: max_def)

lemma rendered_leaf [simp]:
  "rendered (Element t w h) = Element t w h"
  "rendered (HorizontalLine w h) = HorizontalLine w h"
  "rendered (VerticalLine w h) = VerticalLine w h"
  by (simp_all add: rendered_def Let_def)

lemma rendered_Column: "rendered (Column bs w h) = Column (map (\<lambda>c. rendered (set_width w c)) bs) w h"
  by (simp add: rendered_def get_formatted_list_Column)

lemma rendered_Row: "rendered (Row bs w h) = Row (map (\<lambda>c. rendered (set_height h c)) bs) w h"
  by (simp add: rendered_def get_formatted_list_Row)

lemma render_Column: "render (Column bs w h) = concat (map (\<lambda>c. render (set_width w c)) bs)"
  by (simp add: render_def get_formatted_list_Column)

lemma size_rendered [simp]: "width (rendered b) = width b" "height (rendered b) = height b"
  by (cases b; simp add: rendered_Column rendered_Row)+

lemma render_idem: "render (rendered b) = render b \<and> rendered (rendered b) = rendered b"
proof (induction b rule: get_formatted_list.induct)
  case (1 t w h)
  show ?case by simp
next
  case (2 w h)
  show ?case by simp
next
  case (3 w h)
  show ?case by simp
next
  case (4 bs w h)
  have c: "set_width w (rendered (set_width w c)) = rendered (set_width w c)" for c
    by (rule set_width_id) simp
  have eq1: "map (\<lambda>c. render (set_width w (rendered (set_width w c)))) bs
        = map (\<lambda>c. render (set_width w c)) bs"
    using 4 by (simp add: c)
  have eq2: "map (\<lambda>c. rendered (set_width w (rendered (set_width w c)))) bs
        = map (\<lambda>c. rendered (set_width w c)) bs"
    using 4 by (simp add: c)
  show ?case
    by (simp add: rendered_Column render_Column comp_def eq1 eq2)
next
  case (5 bs w h)
  have c: "set_height h (rendered (set_height h c)) = rendered (set_height h c)" for c
    by (rule set_height_id) simp
  have eq1: "map (\<lambda>c. render (set_height h (rendered (set_height h c)))) bs
        = map (\<lambda>c. render (set_height h c)) bs"
    using 5 by (simp add: c)
  have eq2: "map (\<lambda>c. rendered (set_height h (rendered (set_height h c)))) bs
        = map (\<lambda>c. rendered (set_height h c)) bs"
    using 5 by (simp add: c)
  show ?case
    by (simp add: rendered_Row render_def [of "Row _ _ _"] get_formatted_list_Row comp_def
        eq1 eq2)
qed

text \<open>
  C9 (as the code has it). Rendering is idempotent on an ownership tree, in which no
  block is held by two containers or twice by one: a second call of
  get\_formatted\_list, on the block as the first call left it, returns the same lines
  and leaves the block as it is.
\<close>

theorem render_twice:
  "get_formatted_list (rendered b) = get_formatted_list b
   \<and> render (rendered b) = render b"
proof -
  have "get_formatted_list (rendered b) = (render (rendered b), rendered (rendered b))"
    by (simp add: render_def rendered_def)
  also have "\<dots> = (render b, rendered b)"
    by (simp add: render_idem)
  finally show ?thesis
    by (simp add: render_def rendered_def)
qed

text \<open>
  With a shared block the second call can print more. The column at address 0 holds the
  cell at address 1 and the row at address 2, and the row, of height 3, holds the same
  cell: the store that \<^verbatim>\<open>e = Element("X")\<close>, \<^verbatim>\<open>r = Row()\<close>, \<^verbatim>\<open>r.add_block(e)\<close>,
  \<^verbatim>\<open>r.set_height(3)\<close>, \<^verbatim>\<open>c = Column()\<close>, \<^verbatim>\<open>c.add_block(e)\<close>, \<^verbatim>\<open>c.add_block(r)\<close> leave.
  The first call on the column prints the cell at height 1 and then, through the row,
  at height 3: four lines. The row has raised the cell's height, so the second call
  prints six.
\<close>

theorem shared_block_render_twice_counterexample:
  "heap_get_formatted_list 3 0 [HColumn [1, 2] 3 2, HElement ''X'' 3 1, HRow [1] 3 3]
     = Some (['' X '', ''   '', '' X '', ''   ''],
             [HColumn [1, 2] 3 2, HElement ''X'' 3 3, HRow [1] 3 3])
   \<and> heap_get_formatted_list 3 0 [HColumn [1, 2] 3 2, HElement ''X'' 3 3, HRow [1] 3 3]
     = Some ([''   '', '' X '', ''   '', ''   '', '' X '', ''   ''],
             [HColumn [1, 2] 3 2, HElement ''X'' 3 3, HRow [1] 3 3])"
  by code_simp

text \<open>
  With a second cell in the row instead of the shared one, the store prints what the
  tree prints, the first time and the second.
\<close>

lemma unshared_store_render:
  "heap_get_formatted_list 3 0
     [HColumn [1, 2] 3 2, HElement ''X'' 3 1, HRow [3] 3 3, HElement ''X'' 3 1]
     = Some (render (Column [Element ''X'' 3 1, Row [Element ''X'' 3 1] 3 3] 3 2),
             [HColumn [1, 2] 3 2, HElement ''X'' 3 1, HRow [3] 3 3, HElement ''X'' 3 3])
   \<and> heap_get_formatted_list 3 0
     [HColumn [1, 2] 3 2, HElement ''X'' 3 1, HRow [3] 3 3, HElement ''X'' 3 3]
     = Some (render (Column [Element ''X'' 3 1, Row [Element ''X'' 3 1] 3 3] 3 2),
             [HColumn [1, 2] 3 2, HElement ''X'' 3 1, HRow [3] 3 3, HElement ''X'' 3 3])"
  by code_simp

section \<open>The size of the output\<close>










section \<open>The size invariant\<close>

lemma min_set [simp]:
  "get_min_width (set_width n b) = get_min_width b"
  "get_min_height (set_width n b) = get_min_height b"
  "get_min_width (set_height n b) = get_min_width b"
  "get_min_height (set_height n b) = get_min_height b"
  by (cases b; simp)+

lemma min_rendered:
  "get_min_width (rendered b) = get_min_width b \<and> get_min_height (rendered b) = get_min_height b"
proof (induction b rule: get_formatted_list.induct)
  case (4 bs w h)
  then have eq: "map (\<lambda>c. get_min_width (rendered (set_width w c))) bs = map get_min_width bs"
    "map (\<lambda>c. get_min_height (rendered (set_width w c))) bs = map get_min_height bs"
    by simp_all
  show ?case by (simp add: rendered_Column comp_def eq)
next
  case (5 bs w h)
  then have eq: "map (\<lambda>c. get_min_width (rendered (set_height h c))) bs = map get_min_width bs"
    "map (\<lambda>c. get_min_height (rendered (set_height h c))) bs = map get_min_height bs"
    by simp_all
  show ?case by (simp add: rendered_Row comp_def eq)
qed simp_all

lemma all_size_ok_iff: "all_size_ok b \<longleftrightarrow> size_ok b \<and> (\<forall>c \<in> set (blocks b). all_size_ok c)"
  by (cases b) simp_all

lemma blocks_set [simp]: "blocks (set_width n b) = blocks b" "blocks (set_height n b) = blocks b"
  by (cases b; simp)+

lemma size_ok_set: "size_ok b \<Longrightarrow> size_ok (set_width n b) \<and> size_ok (set_height n b)"
  by (auto simp: size_ok_def max_def)

lemma all_size_ok_set:
  "all_size_ok b \<Longrightarrow> all_size_ok (set_width n b) \<and> all_size_ok (set_height n b)"
  using size_ok_set [of b n] by (simp add: all_size_ok_iff [of "set_width n b"]
      all_size_ok_iff [of "set_height n b"] all_size_ok_iff [of b])

lemma size_ok_rendered: "size_ok b \<Longrightarrow> size_ok (rendered b)"
  by (simp add: size_ok_def min_rendered)

lemma all_size_ok_rendered: "all_size_ok b \<Longrightarrow> all_size_ok (rendered b)"
proof (induction b rule: get_formatted_list.induct)
  case (4 bs w h)
  have "size_ok (rendered (Column bs w h))"
    using 4(2) by (intro size_ok_rendered) simp
  moreover have "all_size_ok (rendered (set_width w c))" if "c \<in> set bs" for c
    using 4 that all_size_ok_set [of c w] by simp
  ultimately show ?case by (simp add: all_size_ok_iff [of "rendered _"] rendered_Column)
next
  case (5 bs w h)
  have "size_ok (rendered (Row bs w h))"
    using 5(2) by (intro size_ok_rendered) simp
  moreover have "all_size_ok (rendered (set_height h c))" if "c \<in> set bs" for c
    using 5 that all_size_ok_set [of c h] by simp
  ultimately show ?case by (simp add: all_size_ok_iff [of "rendered _"] rendered_Row)
qed simp_all

lemma at_path_keeps:
  assumes f: "\<And>x y. f x = Some y \<Longrightarrow>
      get_min_width y = get_min_width x \<and> get_min_height y = get_min_height x
      \<and> (all_size_ok x \<longrightarrow> all_size_ok y)"
  shows "at_path p f b = Some b' \<Longrightarrow>
      get_min_width b' = get_min_width b \<and> get_min_height b' = get_min_height b
      \<and> (all_size_ok b \<longrightarrow> all_size_ok b')"
proof (induction p arbitrary: b b')
  case Nil
  then show ?case using f by simp
next
  case (Cons i p)
  show ?case
  proof (cases b)
    case (Column bs w h)
    with Cons.prems obtain c where i: "i < length bs" and c: "at_path p f (bs ! i) = Some c"
      and b': "b' = Column (bs[i := c]) w h"
      by (auto split: if_splits)
    note ih = Cons.IH [OF c]
    have mw: "map get_min_width (bs[i := c]) = map get_min_width bs"
      using ih i by (simp add: map_update list_update_same_conv)
    have mh: "map get_min_height (bs[i := c]) = map get_min_height bs"
      using ih i by (simp add: map_update list_update_same_conv)
    have ok: "all_size_ok b'" if "all_size_ok b"
    proof -
      from that i Column have "all_size_ok (bs ! i)" by simp
      with ih have "all_size_ok c" by simp
      moreover have "set (bs[i := c]) \<subseteq> insert c (set bs)"
        by (rule set_update_subset_insert)
      ultimately show ?thesis
        using that Column b' mw mh by (auto simp: size_ok_def)
    qed
    show ?thesis using ok Column b' mw mh by simp
  next
    case (Row bs w h)
    with Cons.prems obtain c where i: "i < length bs" and c: "at_path p f (bs ! i) = Some c"
      and b': "b' = Row (bs[i := c]) w h"
      by (auto split: if_splits)
    note ih = Cons.IH [OF c]
    have mw: "map get_min_width (bs[i := c]) = map get_min_width bs"
      using ih i by (simp add: map_update list_update_same_conv)
    have mh: "map get_min_height (bs[i := c]) = map get_min_height bs"
      using ih i by (simp add: map_update list_update_same_conv)
    have ok: "all_size_ok b'" if "all_size_ok b"
    proof -
      from that i Row have "all_size_ok (bs ! i)" by simp
      with ih have "all_size_ok c" by simp
      moreover have "set (bs[i := c]) \<subseteq> insert c (set bs)"
        by (rule set_update_subset_insert)
      ultimately show ?thesis
        using that Row b' mw mh by (auto simp: size_ok_def)
    qed
    show ?thesis using ok Row b' mw mh by simp
  qed (use Cons.prems in simp_all)
qed

lemma add_block_ok:
  assumes "add_block b c = Some b'" "all_size_ok b" "all_size_ok c"
  shows "all_size_ok b'"
proof (cases b)
  case (Column bs w h)
  with assms show ?thesis
    by (auto simp: Let_def size_ok_def)
next
  case (Row bs w h)
  with assms show ?thesis
    by (auto simp: Let_def size_ok_def)
qed (use assms in simp_all)

text \<open>
  C1 (as the code has it). In every tree built bottom-up (new blocks, set\_width,
  set\_height and get\_formatted\_list called on any block of the tree, add\_block
  called on the root with a built tree as the child), every block has a width at least
  its minimum width and a height at least its minimum height.
\<close>

theorem built_size_invariant: "built b \<Longrightarrow> all_size_ok b"
proof (induction rule: built.induct)
  case (elem t)
  show ?case by (simp add: new_Element_def size_ok_def)
next
  case hline
  show ?case by (simp add: new_HorizontalLine_def size_ok_def)
next
  case vline
  show ?case by (simp add: new_VerticalLine_def size_ok_def)
next
  case col
  show ?case by (simp add: new_Column_def size_ok_def)
next
  case row
  show ?case by (simp add: new_Row_def size_ok_def)
next
  case (set_w b p n b')
  show ?case
    using at_path_keeps [of "perform (Set_width n)" p b b'] set_w all_size_ok_set by auto
next
  case (set_h b p n b')
  show ?case
    using at_path_keeps [of "perform (Set_height n)" p b b'] set_h all_size_ok_set by auto
next
  case (rend b p b')
  show ?case
    using at_path_keeps [of "perform Get_formatted_list" p b b'] rend all_size_ok_rendered
      min_rendered by auto
next
  case (add b c b')
  then show ?case using add_block_ok by blast
qed

theorem built_size_invariant_witness:
  "built (Column [Element ''Source'' 8 3] 8 1)
   \<and> all_size_ok (Column [Element ''Source'' 8 3] 8 1)
   \<and> get_min_height (Column [Element ''Source'' 8 3] 8 1) = 1
   \<and> get_min_width (Column [Element ''Source'' 8 3] 8 1) = 8"
proof -
  have t: "built (Element ''Source'' 8 3)"
    by (rule built.set_h [OF built.elem, of "[]" 3 "''Source''"]) (simp add: new_Element_def)
  have a: "add_block new_Column (Element ''Source'' 8 3) = Some (Column [Element ''Source'' 8 3] 8 1)"
    by code_simp
  have b: "built (Column [Element ''Source'' 8 3] 8 1)"
    by (rule built.add [OF built.col t a])
  show ?thesis
    using built_size_invariant [OF b] b by (simp add: py_sum_def)
qed

text \<open>
  The invariant does not survive add\_block on a block inside a tree. After add\_block
  on a column that another column already holds, the outer column still has width 0 and
  height 0 while its minimum width is 5 and its minimum height is 1.
\<close>

theorem nested_add_block_counterexample:
  "add_block new_Column new_Column = Some (Column [Column [] 0 0] 0 0)
   \<and> at_path [0] (perform (Add_block (new_Element ''abc''))) (Column [Column [] 0 0] 0 0)
       = Some (Column [Column [Element ''abc'' 5 1] 5 1] 0 0)
   \<and> width (Column [Column [Element ''abc'' 5 1] 5 1] 0 0) = 0
   \<and> get_min_width (Column [Column [Element ''abc'' 5 1] 5 1] 0 0) = 5
   \<and> height (Column [Column [Element ''abc'' 5 1] 5 1] 0 0) = 0
   \<and> get_min_height (Column [Column [Element ''abc'' 5 1] 5 1] 0 0) = 1"
  by code_simp

section \<open>The example table\<close>

text \<open>
  C8. The table built for the example of the module docstring (supplies 140.0, 180.0,
  160.0, the 3 by 5 cost matrix, demands 60.0, 70.0, 120.0, 130.0, 100.0) renders to
  exactly the eleven lines of the docstring.
\<close>

theorem example_table_render:
  "map_option render example_table = Some
     [''-----------------------------------------------------'',
      ''|        |           Destination           |        |'',
      ''| Source |---------------------------------| Supply |'',
      ''|        |  D1    D2     D3     D4     D5  |        |'',
      ''|--------|---------------------------------|--------|'',
      ''|   A1   | 2.0   3.0    4.0    2.0    4.0  | 140.0  |'',
      ''|   A2   | 8.0   4.0    1.0    4.0    1.0  | 180.0  |'',
      ''|   A3   | 9.0   7.0    3.0    7.0    2.0  | 160.0  |'',
      ''|--------|---------------------------------|--------|'',
      ''| Demand | 60.0  70.0  120.0  130.0  100.0 | 480.0  |'',
      ''-----------------------------------------------------'']"
  by code_simp

end
